theory Spec2Isabelle
  imports Main
begin

section \<open>Python strings\<close>

text \<open>
  A Python \<open>str\<close> is a sequence of Unicode code points. A code point is a natural number and
  a string is a list of them, so that slicing (\<open>s[:2000]\<close>), \<open>len\<close> and the per-character
  tests of the source count what Python counts. \<open>asc\<close> writes an ASCII literal.
\<close>

type_synonym ustr = "nat list"

definition asc :: "string \<Rightarrow> ustr" where
  "asc s = map of_char s"

text \<open>
  The character tables of the Unicode database are not part of the program. What the
  program's library calls do on ASCII is written out below; what they do on the other code
  points is read from a record of tables, over which every general theorem quantifies.
  \<open>decimal_tab\<close> is the category Nd (the class \<open>\d\<close> of \<open>re\<close>), \<open>alpha_tab\<close> is
  \<open>str.isalpha\<close>, \<open>alnum_tab\<close> is \<open>str.isalnum\<close> (the class \<open>\w\<close> without the underscore),
  \<open>lower_tab\<close> is the lower-case mapping of \<open>str.lower\<close>, and \<open>fold_tab c l\<close> says that
  the subject character \<open>c\<close> matches the pattern literal \<open>l\<close> under \<open>re.IGNORECASE\<close>.
\<close>

record unicode =
  decimal_tab :: "nat \<Rightarrow> bool"
  alpha_tab :: "nat \<Rightarrow> bool"
  alnum_tab :: "nat \<Rightarrow> bool"
  lower_tab :: "nat \<Rightarrow> nat list"
  fold_tab :: "nat \<Rightarrow> nat \<Rightarrow> bool"

definition isascii :: "nat \<Rightarrow> bool" where
  "isascii c = (c < 128)"

definition ascii_upper :: "nat \<Rightarrow> bool" where
  "ascii_upper c = (65 \<le> c \<and> c \<le> 90)"

definition ascii_letter :: "nat \<Rightarrow> bool" where
  "ascii_letter c = (ascii_upper c \<or> (97 \<le> c \<and> c \<le> 122))"

definition ascii_digit :: "nat \<Rightarrow> bool" where
  "ascii_digit c = (48 \<le> c \<and> c \<le> 57)"

definition ascii_lower :: "nat \<Rightarrow> nat" where
  "ascii_lower c = (if ascii_upper c then c + 32 else c)"

text \<open>
  \<open>str.isspace\<close>, which is also the class \<open>\s\<close> of \<open>re\<close> and the set that \<open>str.strip()\<close>
  removes: the ASCII controls 9 to 13 and 28 to 31, the space, and the Unicode separators.
\<close>

definition isspace :: "nat \<Rightarrow> bool" where
  "isspace c = ((9 \<le> c \<and> c \<le> 13) \<or> (28 \<le> c \<and> c \<le> 32) \<or> c = 133 \<or> c = 160
     \<or> c = 5760 \<or> (8192 \<le> c \<and> c \<le> 8202) \<or> c = 8232 \<or> c = 8233 \<or> c = 8239
     \<or> c = 8287 \<or> c = 12288)"

definition isalpha :: "unicode \<Rightarrow> nat \<Rightarrow> bool" where
  "isalpha U c = (if isascii c then ascii_letter c else alpha_tab U c)"

definition isdecimal :: "unicode \<Rightarrow> nat \<Rightarrow> bool" where
  "isdecimal U c = (if isascii c then ascii_digit c else decimal_tab U c)"

definition isword :: "unicode \<Rightarrow> nat \<Rightarrow> bool" where
  "isword U c = (if isascii c then ascii_letter c \<or> ascii_digit c \<or> c = 95 else alnum_tab U c)"

text \<open>
  \<open>str.lower\<close> maps each code point to one or more code points. An ASCII capital becomes
  its small letter and every other ASCII character stays. The Arabic blocks (Arabic, Arabic
  Supplement, Arabic Extended-A and the two blocks of presentation forms) hold no cased
  character, so their code points stay as well. Every other code point is looked up in the
  table; the one rule of \<open>str.lower\<close> that looks at the context, the final form of the
  Greek sigma, chooses between two code points outside ASCII and is left to the table.
\<close>

definition arabic_script :: "nat \<Rightarrow> bool" where
  "arabic_script c = ((1536 \<le> c \<and> c \<le> 1791) \<or> (1872 \<le> c \<and> c \<le> 1919)
     \<or> (2208 \<le> c \<and> c \<le> 2303) \<or> (64336 \<le> c \<and> c \<le> 65023) \<or> (65136 \<le> c \<and> c \<le> 65279))"

definition lower_cp :: "unicode \<Rightarrow> nat \<Rightarrow> ustr" where
  "lower_cp U c = (if isascii c then [ascii_lower c]
                   else if arabic_script c then [c] else lower_tab U c)"

definition lower :: "unicode \<Rightarrow> ustr \<Rightarrow> ustr" where
  "lower U s = concat (map (lower_cp U) s)"

text \<open>
  A character \<open>c\<close> of the subject against a literal \<open>l\<close> of a pattern compiled with
  \<open>re.IGNORECASE\<close>.
\<close>

definition caseless :: "unicode \<Rightarrow> nat \<Rightarrow> nat \<Rightarrow> bool" where
  "caseless U l c = (if isascii c \<and> isascii l then ascii_lower c = ascii_lower l
                     else fold_tab U c l)"

text \<open>\<open>kw in s\<close>: the string \<open>kw\<close> occurs in \<open>s\<close> as a contiguous run.\<close>

fun starts_with :: "ustr \<Rightarrow> ustr \<Rightarrow> bool" where
  "starts_with [] s = True"
| "starts_with (k # ks) [] = False"
| "starts_with (k # ks) (c # cs) = (k = c \<and> starts_with ks cs)"

fun py_in :: "ustr \<Rightarrow> ustr \<Rightarrow> bool" where
  "py_in kw [] = (kw = [])"
| "py_in kw (c # cs) = (starts_with kw (c # cs) \<or> py_in kw cs)"

text \<open>\<open>s.strip()\<close> removes the white space at both ends of \<open>s\<close>.\<close>

definition lstrip :: "ustr \<Rightarrow> ustr" where
  "lstrip s = dropWhile isspace s"

definition rstrip :: "ustr \<Rightarrow> ustr" where
  "rstrip s = rev (dropWhile isspace (rev s))"

definition strip :: "ustr \<Rightarrow> ustr" where
  "strip s = rstrip (lstrip s)"



section \<open>Tables for concrete inputs\<close>

text \<open>
  Tables for evaluating the program on concrete ASCII and Urdu inputs. On the Arabic block
  (U+0600 to U+06FF) they are the tables of Unicode: the decimal digits are U+0660 to U+0669
  and U+06F0 to U+06F9; the alphabetic code points are U+0620 to U+064A, U+066E, U+066F,
  U+0671 to U+06D3, U+06D5, U+06E5, U+06E6, U+06EE, U+06EF, U+06FA to U+06FC and U+06FF;
  no code point of the block has another case. Outside ASCII and this block the tables are
  not those of Unicode, and nothing below is evaluated there.
\<close>

definition arabic_decimal :: "nat \<Rightarrow> bool" where
  "arabic_decimal c = ((1632 \<le> c \<and> c \<le> 1641) \<or> (1776 \<le> c \<and> c \<le> 1785))"

definition arabic_alpha :: "nat \<Rightarrow> bool" where
  "arabic_alpha c = ((1568 \<le> c \<and> c \<le> 1610) \<or> c = 1646 \<or> c = 1647
     \<or> (1649 \<le> c \<and> c \<le> 1747) \<or> c = 1749 \<or> c = 1765 \<or> c = 1766
     \<or> c = 1774 \<or> c = 1775 \<or> (1786 \<le> c \<and> c \<le> 1788) \<or> c = 1791)"

definition arabic_tables :: unicode where
  "arabic_tables =
     \<lparr> decimal_tab = arabic_decimal,
       alpha_tab = arabic_alpha,
       alnum_tab = (\<lambda>c. arabic_alpha c \<or> arabic_decimal c),
       lower_tab = (\<lambda>c. [c]),
       fold_tab = (\<lambda>c l. c = l) \<rparr>"

section \<open>The regular expressions of the program\<close>

text \<open>
  The patterns of \<open>app.py\<close> use literals, character classes, greedy repetition of a
  character class, concatenation, alternation, \<open>^\<close>, \<open>$\<close>, \<open>\b\<close>, a look-ahead and
  capturing groups. \<open>rx\<close> has one constructor for each, and \<open>run\<close> is the backtracking
  matcher of \<open>re\<close>: from a state it returns every state in which the pattern can end, in
  the order in which \<open>re\<close> tries them, so that the head of the list is the match \<open>re\<close>
  reports. A state is the character before the current position (\<open>None\<close> at the start of
  the subject), the rest of the subject, and the groups captured so far.
\<close>

datatype rx =
    Eps
  | Cls "nat \<Rightarrow> bool"
  | Many "nat \<Rightarrow> bool"
  | Seq rx rx
  | Alt rx rx
  | Bos
  | Eos
  | Wordb "nat \<Rightarrow> bool"
  | Ahead rx
  | Grp nat rx

type_synonym mstate = "nat option \<times> ustr \<times> (nat \<times> ustr) list"

fun single :: "(nat \<Rightarrow> bool) \<Rightarrow> mstate \<Rightarrow> mstate list" where
  "single P (p, [], g) = []"
| "single P (p, c # cs, g) = (if P c then [(Some c, cs, g)] else [])"

fun many :: "(nat \<Rightarrow> bool) \<Rightarrow> mstate \<Rightarrow> mstate list" where
  "many P (p, [], g) = [(p, [], g)]"
| "many P (p, c # cs, g) =
     (if P c then many P (Some c, cs, g) @ [(p, c # cs, g)] else [(p, c # cs, g)])"

fun wordchar_before :: "(nat \<Rightarrow> bool) \<Rightarrow> nat option \<Rightarrow> bool" where
  "wordchar_before W None = False"
| "wordchar_before W (Some c) = W c"

fun wordchar_after :: "(nat \<Rightarrow> bool) \<Rightarrow> ustr \<Rightarrow> bool" where
  "wordchar_after W [] = False"
| "wordchar_after W (c # cs) = W c"

fun run :: "rx \<Rightarrow> mstate \<Rightarrow> mstate list" where
  "run Eps st = [st]"
| "run (Cls P) st = single P st"
| "run (Many P) st = many P st"
| "run (Seq a b) st = concat (map (run b) (run a st))"
| "run (Alt a b) st = run a st @ run b st"
| "run Bos (p, cs, g) = (if p = None then [(p, cs, g)] else [])"
| "run Eos (p, cs, g) = (if cs = [] \<or> cs = [10] then [(p, cs, g)] else [])"
| "run (Wordb W) (p, cs, g) =
     (if wordchar_before W p \<noteq> wordchar_after W cs then [(p, cs, g)] else [])"
| "run (Ahead r) st = (if run r st = [] then [] else [st])"
| "run (Grp n r) (p, cs, g) =
     map (\<lambda>(p', cs', g'). (p', cs', (n, take (length cs - length cs') cs) # g'))
       (run r (p, cs, g))"

definition Lit :: "nat \<Rightarrow> rx" where
  "Lit l = Cls (\<lambda>c. c = l)"

definition seqs :: "rx list \<Rightarrow> rx" where
  "seqs rs = foldr Seq rs Eps"

fun alts :: "rx list \<Rightarrow> rx" where
  "alts [] = Cls (\<lambda>c. False)"
| "alts [r] = r"
| "alts (r # q # rs) = Alt r (alts (q # rs))"

text \<open>A run of literals, exact and under \<open>re.IGNORECASE\<close>.\<close>

definition lits :: "ustr \<Rightarrow> rx" where
  "lits s = seqs (map Lit s)"

definition lits_i :: "unicode \<Rightarrow> ustr \<Rightarrow> rx" where
  "lits_i U s = seqs (map (\<lambda>l. Cls (caseless U l)) s)"

text \<open>
  \<open>pattern.match(s)\<close> tries the pattern at the start of \<open>s\<close> only; \<open>re.search\<close> tries every
  start from left to right and reports the first that matches, as the text from that start
  and the state at the end of the match.
\<close>

definition match_start :: "rx \<Rightarrow> ustr \<Rightarrow> mstate option" where
  "match_start r s = (case run r (None, s, []) of [] \<Rightarrow> None | st # _ \<Rightarrow> Some st)"

fun search_from :: "rx \<Rightarrow> nat option \<Rightarrow> ustr \<Rightarrow> (ustr \<times> mstate) option" where
  "search_from r p [] = (case run r (p, [], []) of [] \<Rightarrow> None | st # _ \<Rightarrow> Some ([], st))"
| "search_from r p (c # cs) =
     (case run r (p, c # cs, []) of
        [] \<Rightarrow> search_from r (Some c) cs
      | st # _ \<Rightarrow> Some (c # cs, st))"

definition search :: "rx \<Rightarrow> ustr \<Rightarrow> (ustr \<times> mstate) option" where
  "search r s = search_from r None s"

text \<open>\<open>match.group(0)\<close> and \<open>match.group(n)\<close> of a search result.\<close>

fun group0 :: "ustr \<times> mstate \<Rightarrow> ustr" where
  "group0 (s, (p, rest, g)) = take (length s - length rest) s"

fun group :: "nat \<Rightarrow> ustr \<times> mstate \<Rightarrow> ustr option" where
  "group n (s, (p, rest, g)) = map_of g n"

text \<open>
  \<open>pattern.sub('', s)\<close>: every match, found from left to right, is removed. A character at
  which the pattern does not match (or matches the empty string) is kept.
\<close>

function sub_empty :: "rx \<Rightarrow> nat option \<Rightarrow> ustr \<Rightarrow> ustr" where
  "sub_empty r p [] = []"
| "sub_empty r p (c # cs) =
     (case run r (p, c # cs, []) of
        [] \<Rightarrow> c # sub_empty r (Some c) cs
      | (p', rest, g) # _ \<Rightarrow>
          if length rest < length (c # cs) then sub_empty r p' rest
          else c # sub_empty r (Some c) cs)"
  by pat_completeness auto
termination
  by (relation "measure (\<lambda>(r, p, s). length s)") auto

section \<open>Presentation Formatter: \<open>display_urdu_rtl_streamlit\<close>\<close>

text \<open>
  \<open>list_item_pattern = re.compile(r'^\s*[-*+\<bullet>]|\s*\d+\.')\<close>, the bullet being U+2022
  (8226). The alternation binds last: the first branch is \<open>^\s*[-*+\<bullet>]\<close>, the second
  \<open>\s*\d+\.\<close>.
\<close>

definition bullet :: nat where
  "bullet = 8226"

definition list_item_pattern :: "unicode \<Rightarrow> rx" where
  "list_item_pattern U =
     Alt (seqs [Bos, Many isspace, Cls (\<lambda>c. c = 45 \<or> c = 42 \<or> c = 43 \<or> c = bullet)])
         (seqs [Many isspace, Cls (isdecimal U), Many (isdecimal U), Lit 46])"

text \<open>
  Lines 41 to 52: the body of the loop over the lines, and the text that is joined from its
  results. The rest of the function puts \<open>processed_text\<close> into a fixed block of HTML
  and hands it to the page.
\<close>

definition process_line :: "unicode \<Rightarrow> ustr \<Rightarrow> ustr" where
  "process_line U line =
     (if match_start (list_item_pattern U) (strip line) \<noteq> None
      then [bullet, 32] @ sub_empty (list_item_pattern U) None (strip line)
      else line)"


text \<open>
  The list-item test in the words of the specification, for a line without leading white
  space: the line starts with a dash, an asterisk, a plus sign or the bullet, or it starts
  with decimal digits that a dot follows. It is compared with \<open>list_item_pattern\<close> below.
\<close>

definition is_marker :: "nat \<Rightarrow> bool" where
  "is_marker c = (c = 45 \<or> c = 42 \<or> c = 43 \<or> c = bullet)"

definition starts_with_marker :: "ustr \<Rightarrow> bool" where
  "starts_with_marker s = (case s of [] \<Rightarrow> False | c # cs \<Rightarrow> is_marker c)"

definition starts_with_number_dot :: "unicode \<Rightarrow> ustr \<Rightarrow> bool" where
  "starts_with_number_dot U s =
     (case s of [] \<Rightarrow> False
      | c # cs \<Rightarrow> isdecimal U c \<and>
          (case dropWhile (isdecimal U) cs of [] \<Rightarrow> False | x # r \<Rightarrow> x = 46))"

text \<open>
  A decimal digit with a dot directly after it, somewhere in the text: the texts without one
  are those in which the second branch of \<open>list_item_pattern\<close> matches nowhere.
\<close>

fun has_number_dot :: "unicode \<Rightarrow> ustr \<Rightarrow> bool" where
  "has_number_dot U [] = False"
| "has_number_dot U [c] = False"
| "has_number_dot U (c # d # cs) = ((isdecimal U c \<and> d = 46) \<or> has_number_dot U (d # cs))"

section \<open>Language Classifier and Query Router: the body of \<open>main\<close>\<close>

text \<open>
  Of \<open>main\<close>, which builds the page, the two decisions about the query are modelled: the
  language of the answer and whether the query names a section.

  Lines 250 to 262. Python reads \<open>a or b or c and not d and not e\<close> as
  \<open>a or b or (c and (not d) and (not e))\<close>. The language tag is the string the source
  assigns to \<open>response_lang\<close>.
\<close>

definition language_classifier :: "unicode \<Rightarrow> ustr \<Rightarrow> ustr" where
  "language_classifier U user_input =
     (let low = lower U user_input in
      if py_in (asc ''what is'') low \<or> py_in (asc ''section'') low
         \<or> (py_in (asc ''law'') low \<and> \<not> py_in (asc ''urdu'') low
              \<and> \<not> py_in (asc ''roman'') low)
      then asc ''en''
      else if list_ex (isalpha U) user_input \<and> \<not> list_ex isascii user_input
      then asc ''ur''
      else if list_ex (isalpha U) user_input \<and>
              (py_in (asc ''kya'') low \<or> py_in (asc ''kiya'') low
               \<or> py_in (asc ''kaise'') low \<or> py_in (asc ''mein'') low
               \<or> py_in (asc ''mujhe'') low \<or> py_in (asc ''batao'') low
               \<or> py_in (asc ''lagte'') low \<or> py_in (asc ''hogaya'') low)
      then asc ''ro''
      else asc ''ur'')"

text \<open>
  Line 264: \<open>re.search(r'\b(PPC|CrPC)X\s*(\d+)\b', user_input, re.IGNORECASE)\<close>, where
  the character written \<open>X\<close> here is, in the source, U+061F ARABIC QUESTION MARK (1567) and
  not the ASCII question mark: to \<open>re\<close> it is a literal that the subject has to contain
  after the law code, and the group before it is not optional. U+061F has no case, so
  \<open>re.IGNORECASE\<close> leaves it an exact literal.
\<close>

definition qmark :: nat where
  "qmark = 1567"

definition section_pattern :: "unicode \<Rightarrow> rx" where
  "section_pattern U =
     seqs [Wordb (isword U),
           Grp 1 (Alt (lits_i U (asc ''PPC'')) (lits_i U (asc ''CrPC''))),
           Lit qmark,
           Many isspace,
           Grp 2 (Seq (Cls (isdecimal U)) (Many (isdecimal U))),
           Wordb (isword U)]"

definition section_match :: "unicode \<Rightarrow> ustr \<Rightarrow> (ustr \<times> mstate) option" where
  "section_match U user_input = search (section_pattern U) user_input"

text \<open>
  Lines 266 to 276: with a match, \<open>law_prefix\<close> is group 1 and \<open>section_num\<close> group 2, and
  the corpus is the CrPC one when \<open>law_prefix and law_prefix.lower() == 'crpc'\<close>, the PPC
  one otherwise. Without a match the query goes to the case analysis (\<open>None\<close>).
\<close>

datatype law_code = PPC | CrPC

definition is_crpc :: "unicode \<Rightarrow> ustr option \<Rightarrow> bool" where
  "is_crpc U law_prefix =
     (case law_prefix of None \<Rightarrow> False
      | Some lp \<Rightarrow> lp \<noteq> [] \<and> lower U lp = asc ''crpc'')"

definition query_router :: "unicode \<Rightarrow> ustr \<Rightarrow> (law_code \<times> ustr option) option" where
  "query_router U user_input =
     (case section_match U user_input of
        None \<Rightarrow> None
      | Some m \<Rightarrow> Some (if is_crpc U (group 1 m) then CrPC else PPC, group 2 m))"

section \<open>Section Locator: the pattern of \<open>get_law_details\<close>\<close>

text \<open>
  Lines 103 to 107. The pattern is, with \<open>X\<close> again for U+061F (1567) and \<open>D\<close> for the Urdu
  word of four letters U+062F U+0641 U+0639 U+06C1,
  \<open>(?:Section|SECTION|Sec\.X|S\.|Dafaa|D)X\s*\<close>, then \<open>re.escape(section_number)\<close>, then
  \<open>[\.\s:-]*[\s\S]*X(?=(?:Section|SECTION|Sec\.X|S\.|Dafaa|D)X\s*\d+|$)\<close>, compiled
  with \<open>re.IGNORECASE\<close>. Each U+061F is a literal of the pattern; the two repetitions
  before the look-ahead are greedy.
\<close>

definition dafaa :: ustr where
  "dafaa = [1583, 1601, 1593, 1729]"

definition section_marker :: "unicode \<Rightarrow> rx" where
  "section_marker U =
     alts [lits_i U (asc ''Section''),
           lits_i U (asc ''SECTION''),
           seqs [lits_i U (asc ''Sec''), Lit 46, Lit qmark],
           seqs [lits_i U (asc ''S''), Lit 46],
           lits_i U (asc ''Dafaa''),
           lits dafaa]"

definition locator_pattern :: "unicode \<Rightarrow> ustr \<Rightarrow> rx" where
  "locator_pattern U section_number =
     seqs [section_marker U, Lit qmark, Many isspace,
           lits_i U section_number,
           Many (\<lambda>c. c = 46 \<or> isspace c \<or> c = 58 \<or> c = 45),
           Many (\<lambda>c. True),
           Lit qmark,
           Ahead (Alt (seqs [section_marker U, Lit qmark, Many isspace,
                             Cls (isdecimal U), Many (isdecimal U)])
                      Eos)]"

text \<open>Lines 108 to 113: the excerpt is the first 2000 characters of the match, or empty.\<close>

definition section_content :: "unicode \<Rightarrow> ustr \<Rightarrow> ustr \<Rightarrow> ustr" where
  "section_content U section_number law_text =
     (case search (locator_pattern U section_number) law_text of
        None \<Rightarrow> []
      | Some m \<Rightarrow> take 2000 (group0 m))"

section \<open>The fixed strings of the program\<close>

text \<open>
  The Urdu strings are given by their code points. \<open>text_unavailable\<close> is returned by line
  94, \<open>no_details\<close> stands in the prompt (line 123) and is returned by line 154,
  \<open>unknown_marker\<close> is the word tested by line 153, \<open>api_error\<close> is the prefix of lines 158
  and 198, \<open>case_unavailable\<close> is returned by line 166 and \<open>disclaimer\<close> is the sentence
  between the quotes of line 188.
\<close>

definition text_unavailable_ur :: ustr where
  "text_unavailable_ur = concat
     [[1605, 1593, 1584, 1585, 1578, 1548, 32, 1605, 1578, 1593, 1604, 1602, 1729],
      asc '' '',
      [1602, 1575, 1606, 1608, 1606, 1740, 32, 1605, 1578, 1606, 32, 1583, 1587],
      [1578, 1740, 1575, 1576, 32, 1606, 1729, 1740, 1722, 32, 1729, 1746, 1748]]"

definition text_unavailable_en :: ustr where
  "text_unavailable_en = asc ''Sorry, relevant legal text is not available.''"

definition no_details_ur :: ustr where
  "no_details_ur = concat
     [[1575, 1587, 32, 1705, 1740, 32, 1578, 1601, 1589, 1740, 1604, 32, 1605],
      [1740, 1585, 1746, 32, 1662, 1575, 1587, 32, 1575, 1587, 32, 1608, 1602],
      [1578, 32, 1605, 1608, 1580, 1608, 1583, 32, 1606, 1729, 1740, 1722, 32],
      [1729, 1746, 1748]]"

definition no_details_en :: ustr where
  "no_details_en = asc ''I do not have details for this section at the moment.''"

definition unknown_marker :: ustr where
  "unknown_marker = [1606, 1575, 1605, 1593, 1604, 1608, 1605]"

definition api_error_ur :: ustr where
  "api_error_ur = concat
     [[1580, 1740, 1605, 1606, 1740], asc '' API '',
      [1587, 1746, 32, 1580, 1608, 1575, 1576, 32, 1581, 1575, 1589, 1604, 32],
      [1705, 1585, 1606, 1746, 32, 1605, 1740, 1722, 32, 1582, 1585, 1575, 1576], [1740],
      asc '': '']"

definition api_error_en :: ustr where
  "api_error_en = asc ''Error getting response from Gemini API: ''"

definition case_unavailable_ur :: ustr where
  "case_unavailable_ur = concat
     [[1605, 1593, 1584, 1585, 1578, 1548, 32, 1602, 1575, 1606, 1608, 1606, 1740],
      asc '' '',
      [1605, 1578, 1606, 32, 1583, 1587, 1578, 1740, 1575, 1576, 32, 1606, 1729],
      [1740, 1722, 32, 1729, 1746, 32, 1705, 1740, 1587, 32, 1705, 1746, 32],
      [1578, 1580, 1586, 1740, 1746, 32, 1705, 1746, 32, 1604, 1740, 1746, 1748]]"

definition case_unavailable_en :: ustr where
  "case_unavailable_en = asc ''Sorry, legal text is not available for case analysis.''"

definition disclaimer :: ustr where
  "disclaimer = concat
     [[1606, 1608, 1657], asc '': '',
      [1605, 1740, 1722, 32, 1575, 1740, 1705, 32, 1605, 1589, 1606, 1608, 1593],
      [1740, 32, 1584, 1729, 1575, 1606, 1578, 32, 1662, 1585, 32, 1605, 1576],
      [1606, 1740, 32, 1605, 1575, 1672, 1604, 32, 1729, 1608, 1722, 32, 1575],
      [1608, 1585, 32, 1570, 1662, 32, 1705, 1608, 32, 1602, 1575, 1606, 1608],
      [1606, 1740, 32, 1605, 1588, 1608, 1585, 1729, 32, 1606, 1729, 1740, 1722],
      asc '' '',
      [1583, 1746, 32, 1587, 1705, 1578, 1575, 1748, 32, 1601, 1585, 1575, 1729],
      [1605, 32, 1705, 1585, 1583, 1729, 32, 1605, 1593, 1604, 1608, 1605, 1575],
      [1578, 32, 1589, 1585, 1601, 32, 1593, 1605, 1608, 1605, 1740, 32, 1570],
      [1711, 1575, 1729, 1740, 32, 1705, 1746, 32, 1604, 1740, 1746, 32, 1729],
      [1740, 1722, 1748, 32, 1705, 1587, 1740, 32, 1576, 1726, 1740, 32, 1581],
      [1602, 1740, 1602, 1740, 32, 1602, 1575, 1606, 1608, 1606, 1740, 32, 1605],
      [1593, 1575, 1605, 1604, 1746, 32, 1705, 1746, 32, 1604, 1740, 1746, 1548],
      asc '' '',
      [1740, 1729, 32, 1575, 1606, 1578, 1729, 1575, 1574, 1740, 32, 1590, 1585],
      [1608, 1585, 1740, 32, 1729, 1746, 32, 1705, 1729, 32, 1570, 1662, 32],
      [1601, 1608, 1585, 1575, 1611, 32, 1575, 1740, 1705, 32, 1605, 1587, 1578],
      [1606, 1583, 32, 1608, 1705, 1740, 1604, 32, 1587, 1746, 32, 1585, 1575],
      [1576, 1591, 1729, 32, 1705, 1585, 1740, 1722, 32, 1580, 1608, 32, 1570],
      [1662, 32, 1705, 1746, 32, 1705, 1740, 1587, 32, 1705, 1575, 32, 1578],
      [1601, 1589, 1740, 1604, 1740, 32, 1580, 1575, 1574, 1586, 1729, 32, 1604],
      [1746, 32, 1705, 1585, 32, 1583, 1585, 1587, 1578, 32, 1602, 1575, 1606],
      [1608, 1606, 1740, 32, 1585, 1729, 1606, 1605, 1575, 1574, 1740, 32, 1601],
      [1585, 1575, 1729, 1605, 32, 1705, 1585, 32, 1587, 1705, 1746, 1748]]"

text \<open>
  Each of the two-way choices of the source is \<open>... if lang == 'ur' else ...\<close>: the Urdu
  string for the tag \<open>ur\<close>, the English one for every other tag.
\<close>

definition text_unavailable :: "ustr \<Rightarrow> ustr" where
  "text_unavailable lang = (if lang = asc ''ur'' then text_unavailable_ur else text_unavailable_en)"

definition no_details :: "ustr \<Rightarrow> ustr" where
  "no_details lang = (if lang = asc ''ur'' then no_details_ur else no_details_en)"

definition api_error :: "ustr \<Rightarrow> ustr \<Rightarrow> ustr" where
  "api_error lang e = (if lang = asc ''ur'' then api_error_ur @ e else api_error_en @ e)"

definition case_unavailable :: "ustr \<Rightarrow> ustr" where
  "case_unavailable lang = (if lang = asc ''ur'' then case_unavailable_ur else case_unavailable_en)"

text \<open>\<open>lang_map_full\<close>, the dictionary of lines 96 to 100 and 168 to 172.\<close>

definition lang_map_full :: "ustr \<rightharpoonup> ustr" where
  "lang_map_full =
     map_of [(asc ''en'', asc ''English''), (asc ''ur'', asc ''Urdu''),
             (asc ''ro'', asc ''Roman Urdu'')]"

section \<open>The prompts\<close>

text \<open>
  The f-string of lines 115 to 147, cut at its placeholders: the section number, the
  \<open>no_details\<close> string of the language, the full name of the language and the excerpt.
\<close>

definition law_prompt_0 :: ustr where
  "law_prompt_0 = concat
     [[10],
      asc ''    You are a legal assistant specializing in Pakistan Penal Code (PPC'',
      asc '') and Code of Criminal Procedure (CrPC).'', [10],
      asc ''    A user is asking for details about Section '']"

definition law_prompt_2 :: ustr where
  "law_prompt_2 = concat
     [asc ''.'', [10],
      [10],
      asc ''    Task:'', [10],
      asc ''    - If law text is provided below, extract information from it.'', [10],
      asc ''    - If law text is empty, search from your own knowledge/resources a'',
      asc ''nd provide accurate details.'', [10],
      asc ''    - If still no information is available, clearly respond with:'', [10],
      asc ''      '', [34]]"

definition law_prompt_4 :: ustr where
  "law_prompt_4 = concat
     [[34, 10],
      [10],
      asc ''    Strictly provide the answer ONLY in the following format:'', [10],
      asc ''    '', [1583, 1601, 1593, 1729, 32, 1606, 1605, 1576, 1585],
      asc '' (Section Number)'', [10],
      asc ''    '', [1580, 1585, 1605], asc '' (Offence)'', [10],
      asc ''    '', [1575, 1585, 1583, 1608, 32, 1593, 1606, 1608, 1575, 1606],
      asc '' (Urdu Title)'', [10],
      asc ''    '', [1578, 1601, 1589, 1740, 1604], asc '' (Tafseel)'', [10],
      asc ''    '',
      [1586, 1740, 1575, 1583, 1729, 32, 1587, 1746, 32, 1586, 1740, 1575, 1583],
      [1729, 32, 1587, 1586, 1575], asc '' (Maximum Saza)'', [10],
      asc ''    '', [1705, 1605, 32, 1587, 1746, 32, 1705, 1605, 32, 1587, 1586, 1575],
      asc '' (Minimum Saza)'', [10],
      asc ''    '', [1590, 1605, 1575, 1606, 1578], asc '' (Bailable / Non-bailable)'',
      [10],
      asc ''    '', [1602, 1575, 1576, 1604, 32, 1711, 1585, 1601, 1578, 1575, 1585, 1740],
      asc '' (Cognizable / Non-cognizable)'', [10],
      asc ''    '',
      [1705, 1606, 32, 1593, 1583, 1575, 1604, 1578, 32, 1605, 1740, 1722, 32],
      [1587, 1605, 1575, 1593, 1578, 32, 1729, 1608, 1711, 1740], asc '' (Triable by)'',
      [10],
      asc ''    '', [1605, 1579, 1575, 1604], asc '' (Example)'', [10],
      asc ''    '',
      [1705, 1740, 1575, 32, 1662, 1608, 1604, 1740, 1587, 32, 1576, 1594, 1740],
      [1585, 32, 1608, 1575, 1585, 1606, 1657, 32, 1711, 1585, 1601, 1578, 1575],
      [1585, 32, 1705, 1585, 32, 1587, 1705, 1578, 1740, 32, 1729, 1746, 1567], [10],
      asc ''    '', [1608, 1575, 1585, 1606, 1657, 32, 1740, 1575, 32, 1587, 1605, 1606],
      asc '' (Warrant or Summons)'', [10],
      asc ''    '',
      [1705, 1740, 1575, 32, 1585, 1575, 1590, 1740, 32, 1606, 1575, 1605, 1729],
      asc '' '', [1605, 1605, 1705, 1606, 32, 1729, 1746, 1567],
      asc '' (Compoundable or Not)'', [10],
      asc ''    '', [1587, 1586, 1575], asc '' (Punishment)'', [10],
      asc ''    '',
      [1705, 1587, 32, 1593, 1583, 1575, 1604, 1578, 32, 1605, 1740, 1722, 32],
      [1605, 1602, 1583, 1605, 1729, 32, 1670, 1604, 1746, 32, 1711, 1575, 1567],
      asc '' (Court by Which Triable)'', [10],
      asc ''    Suggestions ('',
      [1705, 1587, 1746, 32, 1576, 1670, 1575, 32, 1580, 1575, 32, 1587, 1705],
      [1578, 1575, 32, 1729, 1746], asc '')'', [10],
      [10],
      asc ''    Provide the response in '']"

definition law_prompt_6 :: ustr where
  "law_prompt_6 = concat
     [asc '' only.'', [10],
      [10],
      asc ''    Law Text (if available):'', [10],
      asc ''    '']"

definition law_prompt_8 :: ustr where
  "law_prompt_8 = concat
     [[10],
      asc ''    '']"

definition law_prompt :: "ustr \<Rightarrow> ustr \<Rightarrow> ustr \<Rightarrow> ustr \<Rightarrow> ustr" where
  "law_prompt section_number lang full excerpt =
     law_prompt_0 @ section_number @ law_prompt_2 @ no_details lang @ law_prompt_4
       @ full @ law_prompt_6 @ excerpt @ law_prompt_8"

text \<open>
  The f-string of lines 174 to 192, cut at its placeholders (the case description, the
  first 7000 characters of each corpus, the full name of the language) and around the
  disclaimer sentence of line 188.
\<close>

definition case_prompt_0 :: ustr where
  "case_prompt_0 = concat
     [[10],
      asc ''    You are a legal assistant. Analyze the following case scenario and'',
      asc '' identify the most relevant sections from the Pakistan Penal Code (PPC'',
      asc '') and Code of Criminal Procedure (CrPC).'', [10],
      asc ''    Explain why each section is relevant and then provide a summary of'',
      asc '' the potential charges.'', [10],
      asc ''    Also, include general suggestions on how one might be legally defe'',
      asc ''nded, clearly stating it'', [39], asc ''s not legal advice.'', [10],
      [10],
      asc ''    Case Scenario:'', [10],
      asc ''    '', [34]]"

definition case_prompt_2 :: ustr where
  "case_prompt_2 = concat
     [[34, 10],
      [10],
      asc ''    Relevant Sections (from PPC and CrPC texts provided, if needed, li'',
      asc ''mit text to avoid exceeding token limits):'', [10],
      asc ''    PPC Text: '']"

definition case_prompt_4 :: ustr where
  "case_prompt_4 = concat
     [asc '' # Adjusted limit'', [10],
      asc ''    CrPC Text: '']"

definition case_prompt_6 :: ustr where
  "case_prompt_6 = concat
     [asc '' # Adjusted limit'', [10],
      [10],
      asc ''    Provide the output in '']"

definition case_prompt_8 :: ustr where
  "case_prompt_8 = concat
     [asc '' in a clear, conversational manner.'', [10],
      asc ''    Start the response with a clear disclaimer in the requested langua'',
      asc ''ge:'', [10],
      asc ''    '', [34]]"

definition case_prompt_9 :: ustr where
  "case_prompt_9 = concat
     [[34, 10],
      asc ''    (Or its English/Roman Urdu equivalent)'', [10],
      [10],
      asc ''    Then, after the disclaimer, provide the analysis and suggestions.'', [10],
      asc ''    '']"

definition case_prompt :: "ustr \<Rightarrow> ustr \<Rightarrow> ustr \<Rightarrow> ustr \<Rightarrow> ustr" where
  "case_prompt case_description ppc_text crpc_text full =
     case_prompt_0 @ case_description @ case_prompt_2 @ take 7000 ppc_text @ case_prompt_4
       @ take 7000 crpc_text @ case_prompt_6 @ full @ case_prompt_8 @ disclaimer
       @ case_prompt_9"

section \<open>Section Detail and Case Analysis: \<open>get_law_details\<close> and \<open>analyze_case\<close>\<close>

text \<open>
  The generative model is outside the program. It is a parameter: given the prompt,
  \<open>model.generate_content(prompt)\<close> followed by \<open>response.text\<close> either raises an exception,
  of which the program uses the description \<open>str(e)\<close> only (\<open>Inl\<close>), or gives the text of
  the reply (\<open>Inr\<close>). An operation returns its result together with the prompts it has
  sent to the model, in order, so that the number of calls can be stated.

  A result is the string the function returns (\<open>Inr\<close>) or the exception that leaves it
  (\<open>Inl\<close>): the only one is the \<open>KeyError\<close> of \<open>lang_map_full[lang]\<close>, which is evaluated
  outside the \<open>try\<close>. A corpus is \<open>None\<close> or a string; \<open>not law_text\<close> holds for \<open>None\<close> and
  for the empty string.
\<close>

datatype error = KeyError ustr

type_synonym backend = "ustr \<Rightarrow> ustr + ustr"

type_synonym outcome = "(error + ustr) \<times> ustr list"

definition not_text :: "ustr option \<Rightarrow> bool" where
  "not_text t = (case t of None \<Rightarrow> True | Some s \<Rightarrow> s = [])"

definition get_law_details ::
  "unicode \<Rightarrow> backend \<Rightarrow> ustr \<Rightarrow> ustr option \<Rightarrow> ustr \<Rightarrow> outcome" where
  "get_law_details U generate_content section_number law_text lang =
     (case law_text of
        None \<Rightarrow> (Inr (text_unavailable lang), [])
      | Some text \<Rightarrow>
          if text = [] then (Inr (text_unavailable lang), [])
          else
            let excerpt = section_content U section_number text in
            (case lang_map_full lang of
               None \<Rightarrow> (Inl (KeyError lang), [])
             | Some full \<Rightarrow>
                 let prompt = law_prompt section_number lang full excerpt in
                 (case generate_content prompt of
                    Inl e \<Rightarrow> (Inr (api_error lang e), [prompt])
                  | Inr reply \<Rightarrow>
                      let answer = strip reply in
                      if answer = [] \<or> (py_in unknown_marker answer \<and> excerpt = [])
                      then (Inr (no_details lang), [prompt])
                      else (Inr answer, [prompt]))))"

definition analyze_case ::
  "backend \<Rightarrow> ustr \<Rightarrow> ustr option \<Rightarrow> ustr option \<Rightarrow> ustr \<Rightarrow> outcome" where
  "analyze_case generate_content case_description ppc_text crpc_text lang =
     (if not_text ppc_text \<or> not_text crpc_text then (Inr (case_unavailable lang), [])
      else
        (case lang_map_full lang of
           None \<Rightarrow> (Inl (KeyError lang), [])
         | Some full \<Rightarrow>
             let prompt = case_prompt case_description (the ppc_text) (the crpc_text) full in
             (case generate_content prompt of
                Inl e \<Rightarrow> (Inr (api_error lang e), [prompt])
              | Inr reply \<Rightarrow> (Inr reply, [prompt]))))"

text \<open>Two stand-ins for the model: one that replies a given text, one that fails.\<close>

definition replying :: "ustr \<Rightarrow> backend" where
  "replying reply = (\<lambda>prompt. Inr reply)"

definition failing :: "ustr \<Rightarrow> backend" where
  "failing e = (\<lambda>prompt. Inl e)"

section \<open>Evaluation on concrete inputs\<close>

text \<open>The definitions that evaluate the character tests and the patterns on a concrete input.\<close>

lemmas char_defs = asc_def isascii_def ascii_upper_def ascii_letter_def ascii_digit_def
  ascii_lower_def isspace_def isalpha_def isdecimal_def isword_def arabic_script_def
  lower_cp_def lower_def caseless_def arabic_tables_def arabic_decimal_def arabic_alpha_def

lemmas regex_defs = strip_def lstrip_def rstrip_def match_start_def search_def seqs_def Lit_def
  lits_def lits_i_def bullet_def qmark_def dafaa_def list_item_pattern_def section_pattern_def
  section_marker_def locator_pattern_def section_match_def section_content_def query_router_def
  is_crpc_def process_line_def

section \<open>Properties of the matcher\<close>

text \<open>
  A match never looks at more than the rest of the subject: every state that \<open>run\<close> reaches
  holds characters of the state it started from. So a pattern that asks for a literal after
  its first or second part cannot match a subject without that character.
\<close>

lemma many_rest:
  "(p', cs', g') \<in> set (many P (p, cs, g)) \<Longrightarrow> set cs' \<subseteq> set cs"
  by (induction cs arbitrary: p) (auto split: if_splits)

lemma run_rest:
  "(p', cs', g') \<in> set (run r (p, cs, g)) \<Longrightarrow> set cs' \<subseteq> set cs"
proof (induction r arbitrary: p cs g p' cs' g')
  case Eps
  then show ?case by simp
next
  case (Cls P)
  then show ?case by (cases cs) (auto split: if_splits)
next
  case (Many P)
  then show ?case using many_rest by simp
next
  case (Seq a b)
  from Seq.prems obtain st where st: "st \<in> set (run a (p, cs, g))"
    and fin: "(p', cs', g') \<in> set (run b st)" by auto
  obtain p1 cs1 g1 where [simp]: "st = (p1, cs1, g1)" by (cases st)
  from st have "set cs1 \<subseteq> set cs" using Seq.IH(1) by simp
  moreover from fin have "set cs' \<subseteq> set cs1" using Seq.IH(2) by simp
  ultimately show ?case by blast
next
  case (Alt a b)
  from Alt.prems have "(p', cs', g') \<in> set (run a (p, cs, g)) \<or> (p', cs', g') \<in> set (run b (p, cs, g))"
    by simp
  then show ?case using Alt.IH by blast
next
  case Bos
  then show ?case by (auto split: if_splits)
next
  case Eos
  then show ?case by (auto split: if_splits)
next
  case (Wordb W)
  then show ?case by (auto split: if_splits)
next
  case (Ahead r)
  then show ?case by (auto split: if_splits)
next
  case (Grp n r)
  from Grp.prems obtain g1 where "(p', cs', g1) \<in> set (run r (p, cs, g))" by auto
  then show ?case by (rule Grp.IH)
qed

lemma literal_absent: "l \<notin> set cs \<Longrightarrow> run (Seq (Lit l) r) (p, cs, g) = []"
  by (cases cs) (auto simp: Lit_def)

lemma seq_absent:
  assumes "\<And>p' cs' g'. (p', cs', g') \<in> set (run a st) \<Longrightarrow> run b (p', cs', g') = []"
  shows "run (Seq a b) st = []"
  using assms by auto

lemma search_from_none:
  "(\<And>p cs'. set cs' \<subseteq> set cs \<Longrightarrow> run r (p, cs', []) = []) \<Longrightarrow> search_from r p cs = None"
proof (induction cs arbitrary: p)
  case Nil
  then show ?case by simp
next
  case (Cons c cs)
  have "run r (p, c # cs, []) = []" by (rule Cons.prems) simp
  moreover have "search_from r (Some c) cs = None"
  proof (rule Cons.IH)
    fix q cs' assume "set cs' \<subseteq> set cs"
    then show "run r (q, cs', []) = []" by (intro Cons.prems) auto
  qed
  ultimately show ?case by simp
qed

lemma literal_after_one:
  assumes "l \<notin> set cs"
  shows "run (Seq a (Seq (Lit l) r)) (p, cs, g) = []"
proof (rule seq_absent)
  fix p1 cs1 g1
  assume "(p1, cs1, g1) \<in> set (run a (p, cs, g))"
  then have "set cs1 \<subseteq> set cs" by (rule run_rest)
  with assms have "l \<notin> set cs1" by blast
  then show "run (Seq (Lit l) r) (p1, cs1, g1) = []" by (rule literal_absent)
qed

lemma literal_after_two:
  assumes "l \<notin> set cs"
  shows "run (Seq a (Seq b (Seq (Lit l) r))) (p, cs, g) = []"
proof (rule seq_absent)
  fix p1 cs1 g1
  assume "(p1, cs1, g1) \<in> set (run a (p, cs, g))"
  then have "set cs1 \<subseteq> set cs" by (rule run_rest)
  with assms have "l \<notin> set cs1" by blast
  then show "run (Seq b (Seq (Lit l) r)) (p1, cs1, g1) = []" by (rule literal_after_one)
qed

text \<open>A repetition that stops at the first character outside its class.\<close>

lemma many_no_head: "cs = [] \<or> \<not> P (hd cs) \<Longrightarrow> many P (p, cs, g) = [(p, cs, g)]"
  by (cases cs) auto

lemma many_then_literal:
  "\<not> P l \<Longrightarrow>
   (\<exists>st\<in>set (many P (p, cs, g)). single (\<lambda>c. c = l) st \<noteq> []) = (\<exists>r. dropWhile P cs = l # r)"
proof (induction cs arbitrary: p)
  case Nil
  then show ?case by simp
next
  case (Cons c cs)
  show ?case
  proof (cases "P c")
    case True
    with Cons.prems have "c \<noteq> l" by auto
    with True Cons.IH [OF Cons.prems, of "Some c"] show ?thesis by auto
  next
    case False
    then show ?thesis by auto
  qed
qed

lemma head_is: "(case xs of [] \<Rightarrow> False | x # r \<Rightarrow> x = l) \<longleftrightarrow> (\<exists>r. xs = l # r)"
  by (cases xs) auto

lemma concat_map_Eps: "concat (map (run Eps) sts) = sts"
  by (induction sts) simp_all

lemma run_Seq_Eps: "run (Seq r Eps) = run r"
  by (rule ext) (simp add: concat_map_Eps)

lemma run_Cls: "run (Cls P) = single P"
  by (rule ext) simp

lemma concat_map_nonempty: "concat (map f xs) \<noteq> [] \<longleftrightarrow> (\<exists>x\<in>set xs. f x \<noteq> [])"
  by (induction xs) auto

section \<open>Properties of the Presentation Formatter\<close>

text \<open>\<open>strip\<close> leaves no white space in front, and keeps a first character that is none.\<close>

lemma drop_trailing_split: "xs = rev (dropWhile P (rev xs)) @ rev (takeWhile P (rev xs))"
proof -
  have "rev (dropWhile P (rev xs)) @ rev (takeWhile P (rev xs))
        = rev (takeWhile P (rev xs) @ dropWhile P (rev xs))"
    by (simp only: rev_append)
  also have "\<dots> = rev (rev xs)" by (simp only: takeWhile_dropWhile_id)
  finally show ?thesis by simp
qed

lemma strip_no_leading_space: "strip s = [] \<or> \<not> isspace (hd (strip s))"
proof (cases "strip s")
  case Nil
  then show ?thesis by simp
next
  case (Cons c cs)
  let ?m = "dropWhile isspace s"
  have "?m = strip s @ rev (takeWhile isspace (rev ?m))"
    unfolding strip_def lstrip_def rstrip_def by (rule drop_trailing_split)
  then have eq: "?m = c # (cs @ rev (takeWhile isspace (rev ?m)))"
    by (simp only: Cons append_Cons)
  have "\<not> isspace (hd ?m)"
  proof (rule hd_dropWhile)
    show "?m \<noteq> []" using eq by (metis list.distinct(1))
  qed
  moreover have "hd ?m = c" using eq by (metis list.sel(1))
  ultimately show ?thesis using Cons by simp
qed

lemma rstrip_Cons: "\<not> isspace c \<Longrightarrow> rstrip (c # s) = c # rstrip s"
  by (simp add: rstrip_def dropWhile_append)

lemma strip_Cons: "\<not> isspace c \<Longrightarrow> strip (c # s) = c # rstrip s"
  by (simp add: strip_def lstrip_def rstrip_Cons)

text \<open>
  On a line without leading white space \<open>list_item_pattern\<close> matches at the start exactly
  when the line is a list item in the words of the specification.
\<close>

lemma dot_not_decimal: "\<not> isdecimal U 46"
  by (simp add: isdecimal_def isascii_def ascii_digit_def)

lemma list_item_first_branch:
  assumes "s = [] \<or> \<not> isspace (hd s)"
  shows "run (seqs [Bos, Many isspace, Cls (\<lambda>c. c = 45 \<or> c = 42 \<or> c = 43 \<or> c = bullet)])
           (None, s, []) \<noteq> [] \<longleftrightarrow> starts_with_marker s"
  using assms by (cases s) (auto simp: seqs_def starts_with_marker_def is_marker_def many_no_head)

lemma list_item_second_branch:
  assumes "s = [] \<or> \<not> isspace (hd s)"
  shows "run (seqs [Many isspace, Cls (isdecimal U), Many (isdecimal U), Lit 46])
           (None, s, []) \<noteq> [] \<longleftrightarrow> starts_with_number_dot U s"
proof (cases s)
  case Nil
  then show ?thesis by (simp add: seqs_def starts_with_number_dot_def Lit_def)
next
  case (Cons c cs)
  with assms have ns: "\<not> isspace c" by simp
  show ?thesis
  proof (cases "isdecimal U c")
    case True
    have "run (seqs [Many isspace, Cls (isdecimal U), Many (isdecimal U), Lit 46]) (None, s, [])
          = concat (map (single (\<lambda>c. c = 46)) (many (isdecimal U) (Some c, cs, [])))"
      using Cons ns True by (simp add: seqs_def Lit_def run_Seq_Eps run_Cls)
    then have "run (seqs [Many isspace, Cls (isdecimal U), Many (isdecimal U), Lit 46]) (None, s, []) \<noteq> []
          \<longleftrightarrow> (\<exists>st\<in>set (many (isdecimal U) (Some c, cs, [])). single (\<lambda>c. c = 46) st \<noteq> [])"
      by (simp only: concat_map_nonempty)
    also have "\<dots> \<longleftrightarrow> (\<exists>r. dropWhile (isdecimal U) cs = 46 # r)"
      by (rule many_then_literal) (rule dot_not_decimal)
    also have "\<dots> \<longleftrightarrow> starts_with_number_dot U s"
    proof -
      have "starts_with_number_dot U s
            \<longleftrightarrow> (case dropWhile (isdecimal U) cs of [] \<Rightarrow> False | x # r \<Rightarrow> x = 46)"
        using Cons True by (simp add: starts_with_number_dot_def)
      also have "\<dots> \<longleftrightarrow> (\<exists>r. dropWhile (isdecimal U) cs = 46 # r)"
        by (rule head_is)
      finally show ?thesis by simp
    qed
    finally show ?thesis .
  next
    case False
    then show ?thesis using Cons ns
      by (simp add: seqs_def Lit_def starts_with_number_dot_def)
  qed
qed

lemma list_item_match:
  assumes "s = [] \<or> \<not> isspace (hd s)"
  shows "match_start (list_item_pattern U) s \<noteq> None
         \<longleftrightarrow> starts_with_marker s \<or> starts_with_number_dot U s"
proof -
  have "match_start (list_item_pattern U) s \<noteq> None \<longleftrightarrow> run (list_item_pattern U) (None, s, []) \<noteq> []"
    by (simp add: match_start_def split: list.splits)
  also have "\<dots> \<longleftrightarrow> starts_with_marker s \<or> starts_with_number_dot U s"
    using list_item_first_branch [OF assms] list_item_second_branch [OF assms, of U]
    by (simp add: list_item_pattern_def)
  finally show ?thesis .
qed

lemma process_line_cases:
  "process_line U line =
     (if starts_with_marker (strip line) \<or> starts_with_number_dot U (strip line)
      then [bullet, 32] @ sub_empty (list_item_pattern U) None (strip line)
      else line)"
  using list_item_match [OF strip_no_leading_space, of U line]
  by (simp add: process_line_def)

text \<open>
  Where the pattern matches after the start of the line: the first branch nowhere, the second
  only where a decimal digit stands directly before a dot. So in a line without such a digit
  \<open>sub\<close> removes the marker at the start and nothing else.
\<close>

lemma many_suffix:
  "(p', cs', g') \<in> set (many P (p, cs, g)) \<Longrightarrow> \<exists>pre. cs = pre @ cs'"
proof (induction cs arbitrary: p)
  case Nil
  then show ?case by simp
next
  case (Cons c cs)
  show ?case
  proof (cases "(p', cs', g') = (p, c # cs, g)")
    case True
    then show ?thesis by simp
  next
    case False
    with Cons.prems have "(p', cs', g') \<in> set (many P (Some c, cs, g))"
      by (auto split: if_splits)
    then obtain pre where "cs = pre @ cs'" using Cons.IH by blast
    then have "c # cs = (c # pre) @ cs'" by simp
    then show ?thesis by blast
  qed
qed

lemma has_number_dot_suffix: "has_number_dot U cs \<Longrightarrow> has_number_dot U (pre @ cs)"
proof (induction pre)
  case Nil
  then show ?case by simp
next
  case (Cons a pre)
  then have "has_number_dot U (pre @ cs)" by simp
  then show ?case by (cases "pre @ cs") simp_all
qed

lemma has_number_dot_prefix: "has_number_dot U a \<Longrightarrow> has_number_dot U (a @ b)"
  by (induction U a rule: has_number_dot.induct) auto

lemma digits_then_dot:
  "isdecimal U c \<Longrightarrow> dropWhile (isdecimal U) t = 46 # r \<Longrightarrow> has_number_dot U (c # t)"
proof (induction t arbitrary: c)
  case Nil
  then show ?case by simp
next
  case (Cons d t)
  show ?case
  proof (cases "isdecimal U d")
    case True
    with Cons.prems have "dropWhile (isdecimal U) t = 46 # r" by simp
    with True have "has_number_dot U (d # t)" by (rule Cons.IH)
    then show ?thesis by simp
  next
    case False
    with Cons.prems have "d = 46" by simp
    with Cons.prems show ?thesis by simp
  qed
qed

lemma many_then_literal_result:
  "\<not> P l \<Longrightarrow>
   concat (map (single (\<lambda>c. c = l)) (many P (p, cs, g)))
   = (case dropWhile P cs of [] \<Rightarrow> [] | x # r \<Rightarrow> if x = l then [(Some l, r, g)] else [])"
proof (induction cs arbitrary: p)
  case Nil
  then show ?case by simp
next
  case (Cons c cs)
  show ?case
  proof (cases "P c")
    case True
    with Cons.prems have "c \<noteq> l" by auto
    with True Cons.IH [OF Cons.prems, of "Some c"] show ?thesis by simp
  next
    case False
    then show ?thesis by simp
  qed
qed

lemma number_branch_from_digit:
  "run (seqs [Cls (isdecimal U), Many (isdecimal U), Lit 46]) (p, cs, g)
   = (case cs of [] \<Rightarrow> []
      | c # t \<Rightarrow> if isdecimal U c
          then (case dropWhile (isdecimal U) t of [] \<Rightarrow> []
                | x # r \<Rightarrow> if x = 46 then [(Some 46, r, g)] else [])
          else [])"
proof (cases cs)
  case Nil
  then show ?thesis by (simp add: seqs_def)
next
  case (Cons c t)
  show ?thesis
  proof (cases "isdecimal U c")
    case True
    have "run (seqs [Cls (isdecimal U), Many (isdecimal U), Lit 46]) (p, cs, g)
          = concat (map (single (\<lambda>c. c = 46)) (many (isdecimal U) (Some c, t, g)))"
      using Cons True by (simp add: seqs_def Lit_def run_Seq_Eps run_Cls)
    also have "\<dots> = (case dropWhile (isdecimal U) t of [] \<Rightarrow> []
                | x # r \<Rightarrow> if x = 46 then [(Some 46, r, g)] else [])"
      by (rule many_then_literal_result) (rule dot_not_decimal)
    finally show ?thesis using Cons True by simp
  next
    case False
    then show ?thesis using Cons by (simp add: seqs_def)
  qed
qed

lemma number_branch_no_match:
  assumes "\<not> has_number_dot U cs"
  shows "run (seqs [Cls (isdecimal U), Many (isdecimal U), Lit 46]) (p, cs, g) = []"
proof (cases cs)
  case Nil
  then show ?thesis by (simp add: number_branch_from_digit)
next
  case (Cons c t)
  show ?thesis
  proof (cases "isdecimal U c")
    case False
    then show ?thesis using Cons by (simp add: number_branch_from_digit)
  next
    case True
    have "\<not> (\<exists>r. dropWhile (isdecimal U) t = 46 # r)"
      using digits_then_dot [OF True] assms Cons by blast
    then show ?thesis using Cons True
      by (simp add: number_branch_from_digit split: list.splits)
  qed
qed

lemma second_branch_split:
  "run (seqs [Many isspace, Cls (isdecimal U), Many (isdecimal U), Lit 46]) st
   = concat (map (run (seqs [Cls (isdecimal U), Many (isdecimal U), Lit 46])) (many isspace st))"
  by (simp add: seqs_def)

lemma second_branch_no_match:
  assumes "\<not> has_number_dot U cs"
  shows "run (seqs [Many isspace, Cls (isdecimal U), Many (isdecimal U), Lit 46]) (p, cs, g) = []"
proof -
  have "run (seqs [Cls (isdecimal U), Many (isdecimal U), Lit 46]) st = []"
    if "st \<in> set (many isspace (p, cs, g))" for st
  proof -
    obtain p' cs' g' where st: "st = (p', cs', g')" by (cases st)
    with that obtain pre where "cs = pre @ cs'" using many_suffix by blast
    with assms have "\<not> has_number_dot U cs'" using has_number_dot_suffix by blast
    then show ?thesis unfolding st by (rule number_branch_no_match)
  qed
  then show ?thesis by (simp only: second_branch_split concat_eq_Nil_conv) auto
qed

lemma first_branch_later:
  "p \<noteq> None \<Longrightarrow> run (seqs [Bos, Many isspace, Cls (\<lambda>c. c = 45 \<or> c = 42 \<or> c = 43 \<or> c = bullet)])
     (p, cs, g) = []"
  by (cases p) (simp_all add: seqs_def)

lemma no_match_later:
  assumes "p \<noteq> None" and "\<not> has_number_dot U cs"
  shows "run (list_item_pattern U) (p, cs, g) = []"
proof -
  have a: "run (seqs [Bos, Many isspace, Cls (\<lambda>c. c = 45 \<or> c = 42 \<or> c = 43 \<or> c = bullet)])
             (p, cs, g) = []"
    using assms(1) by (rule first_branch_later)
  have b: "run (seqs [Many isspace, Cls (isdecimal U), Many (isdecimal U), Lit 46]) (p, cs, g) = []"
    using assms(2) by (rule second_branch_no_match)
  show ?thesis unfolding list_item_pattern_def by (simp only: run.simps a b append_Nil)
qed

lemma sub_empty_keeps:
  "p \<noteq> None \<Longrightarrow> \<not> has_number_dot U cs \<Longrightarrow> sub_empty (list_item_pattern U) p cs = cs"
proof (induction cs arbitrary: p)
  case Nil
  then show ?case by simp
next
  case (Cons c cs)
  have nm: "run (list_item_pattern U) (p, c # cs, []) = []"
    using Cons.prems by (rule no_match_later)
  have "\<not> has_number_dot U cs"
    using Cons.prems(2) has_number_dot_suffix [of U cs "[c]"] by auto
  then have "sub_empty (list_item_pattern U) (Some c) cs = cs"
    by (intro Cons.IH) simp
  with nm show ?case by simp
qed

lemma marker_not_space: "is_marker m \<Longrightarrow> \<not> isspace m"
  by (auto simp: is_marker_def isspace_def bullet_def)

lemma first_branch_marker:
  "is_marker m \<Longrightarrow>
   run (seqs [Bos, Many isspace, Cls (\<lambda>c. c = 45 \<or> c = 42 \<or> c = 43 \<or> c = bullet)])
     (None, m # rest, []) = [(Some m, rest, [])]"
  using marker_not_space [of m] by (simp add: seqs_def is_marker_def)

lemma sub_empty_marker:
  assumes "is_marker m" and "\<not> has_number_dot U rest"
  shows "sub_empty (list_item_pattern U) None (m # rest) = rest"
proof -
  have "run (list_item_pattern U) (None, m # rest, [])
        = (Some m, rest, []) # run (seqs [Many isspace, Cls (isdecimal U), Many (isdecimal U), Lit 46])
                                 (None, m # rest, [])"
    unfolding list_item_pattern_def by (simp only: run.simps first_branch_marker [OF assms(1)] append_Cons append_Nil)
  then have "sub_empty (list_item_pattern U) None (m # rest)
        = sub_empty (list_item_pattern U) (Some m) rest"
    by simp
  also have "\<dots> = rest" using assms(2) by (intro sub_empty_keeps) simp
  finally show ?thesis .
qed




lemma marker_line:
  assumes "strip line = m # rest" and "is_marker m" and "\<not> has_number_dot U rest"
  shows "process_line U line = [bullet, 32] @ rest"
proof -
  have "starts_with_marker (strip line)" using assms(1,2) by (simp add: starts_with_marker_def)
  then show ?thesis
    by (simp only: process_line_cases assms(1) sub_empty_marker [OF assms(2,3)]) simp
qed


lemma bullet_not_space: "\<not> isspace bullet"
  by (simp add: isspace_def bullet_def)

lemma rstrip_keeps_no_number_dot: "\<not> has_number_dot U s \<Longrightarrow> \<not> has_number_dot U (rstrip s)"
proof
  assume a: "\<not> has_number_dot U s" and b: "has_number_dot U (rstrip s)"
  have "s = rstrip s @ rev (takeWhile isspace (rev s))"
    unfolding rstrip_def by (rule drop_trailing_split)
  then have "has_number_dot U s" using b has_number_dot_prefix by metis
  with a show False by simp
qed

lemma bullet_line_second_pass:
  assumes "\<not> has_number_dot U rest"
  shows "process_line U (bullet # rest) = [bullet, 32] @ rstrip rest"
proof (rule marker_line)
  show "strip (bullet # rest) = bullet # rstrip rest"
    using bullet_not_space by (rule strip_Cons)
  show "is_marker bullet" by (simp add: is_marker_def)
  show "\<not> has_number_dot U (rstrip rest)" using assms by (rule rstrip_keeps_no_number_dot)
qed




text \<open>
  Claim C4. A line that is already a normalized bullet line is to come out of the
  transformation as it went in. The bullet is in the marker class of line 43, so such a line
  is taken as a list item again; the program removes the bullet, keeps the space after it and
  puts the bullet and a space in front: the result of \<open>- foo\<close>, the bullet, two spaces and
  \<open>foo\<close>, comes out with three spaces, and the bullet, one space and \<open>foo\<close> with two.
\<close>

theorem second_pass_adds_space:
  "process_line arabic_tables (asc ''- foo'') = [bullet, 32, 32] @ asc ''foo''
   \<and> process_line arabic_tables ([bullet, 32, 32] @ asc ''foo'') = [bullet, 32, 32, 32] @ asc ''foo''
   \<and> process_line arabic_tables ([bullet, 32] @ asc ''foo'') = [bullet, 32, 32] @ asc ''foo''"
  by (simp add: regex_defs char_defs)

section \<open>Properties of the Query Router and of the Section Locator\<close>

text \<open>
  Both patterns ask for U+061F: a query or a corpus without that character is never matched.
  With it, the patterns match as the source writes them.
\<close>

lemma section_pattern_needs_qmark:
  assumes "qmark \<notin> set cs"
  shows "run (section_pattern U) (p, cs, g) = []"
proof -
  have "run (foldr Seq [Wordb (isword U),
           Grp 1 (Alt (lits_i U (asc ''PPC'')) (lits_i U (asc ''CrPC''))),
           Lit qmark,
           Many isspace,
           Grp 2 (Seq (Cls (isdecimal U)) (Many (isdecimal U))),
           Wordb (isword U)] Eps) (p, cs, g) = []"
    unfolding foldr.simps o_apply by (rule literal_after_two) (rule assms)
  then show ?thesis by (simp only: section_pattern_def seqs_def)
qed

lemma router_needs_qmark: "qmark \<notin> set user_input \<Longrightarrow> query_router U user_input = None"
proof -
  assume a: "qmark \<notin> set user_input"
  have "search_from (section_pattern U) None user_input = None"
  proof (rule search_from_none)
    fix p cs' assume "set cs' \<subseteq> set user_input"
    with a have "qmark \<notin> set cs'" by blast
    then show "run (section_pattern U) (p, cs', []) = []" by (rule section_pattern_needs_qmark)
  qed
  then show ?thesis by (simp add: query_router_def section_match_def search_def)
qed

lemma locator_pattern_needs_qmark:
  assumes "qmark \<notin> set cs"
  shows "run (locator_pattern U n) (p, cs, g) = []"
proof -
  have "run (Seq (section_marker U) (Seq (Lit qmark) r)) (p, cs, g) = []" for r
    by (rule literal_after_one) (rule assms)
  then show ?thesis by (simp only: locator_pattern_def seqs_def foldr.simps o_apply)
qed

lemma locator_needs_qmark: "qmark \<notin> set law_text \<Longrightarrow> section_content U n law_text = []"
proof -
  assume a: "qmark \<notin> set law_text"
  have "search_from (locator_pattern U n) None law_text = None"
  proof (rule search_from_none)
    fix p cs' assume "set cs' \<subseteq> set law_text"
    with a have "qmark \<notin> set cs'" by blast
    then show "run (locator_pattern U n) (p, cs', []) = []" by (rule locator_pattern_needs_qmark)
  qed
  then show ?thesis by (simp add: section_content_def search_def)
qed

lemma section_content_length: "length (section_content U n law_text) \<le> 2000"
  by (simp add: section_content_def split: option.splits)

lemma router_with_arabic_question_mark:
  "query_router arabic_tables (asc ''CrPC'' @ [qmark] @ asc '' 154'') = Some (CrPC, Some (asc ''154''))
   \<and> query_router arabic_tables (asc ''see ppc'' @ [qmark] @ asc ''302.'') = Some (PPC, Some (asc ''302''))"
  by (simp add: regex_defs char_defs)

lemma locator_with_arabic_question_mark:
  "section_content arabic_tables (asc ''302'')
     (asc ''Section'' @ [qmark] @ asc '' 302: qatl'' @ [qmark] @ asc ''Section'' @ [qmark] @ asc '' 303 x'')
   = asc ''Section'' @ [qmark] @ asc '' 302: qatl'' @ [qmark]"
  by (simp add: regex_defs char_defs)

text \<open>
  Claim C1. The Query Router is to give the Section Reference of a query that names a law
  code and a number, or a number alone. The program gives none for \<open>PPC 302\<close>, for
  \<open>CrPC 154\<close>, for \<open>302\<close> and for the example query of its own page, because none of them
  holds U+061F after a law code.
\<close>

theorem router_misses_plain_reference:
  "query_router arabic_tables (asc ''PPC 302'') = None
   \<and> query_router arabic_tables (asc ''CrPC 154'') = None
   \<and> query_router arabic_tables (asc ''302'') = None
   \<and> query_router arabic_tables (asc ''What is Section 302 PPC?'') = None"
  by (simp add: router_needs_qmark asc_def qmark_def)

text \<open>
  Claim C2. The Section Locator is to return, for a corpus with \<open>Section 302\<close> and then
  \<open>Section 303\<close> and the request \<open>302\<close>, the text between the two markers. The program
  returns the empty excerpt, because the corpus holds no U+061F after the marker.
\<close>

theorem locator_misses_plain_section:
  "section_content arabic_tables (asc ''302'')
     (asc ''Section 302 Punishment of qatl-i-amd. Section 303 Qatl committed under ikrah-i-tam.'')
   = []"
  by (simp add: locator_needs_qmark asc_def qmark_def)

section \<open>Properties of Section Detail and Case Analysis\<close>

lemma starts_with_append: "starts_with x (x @ b)"
  by (induction x) auto

lemma py_in_append: "py_in x (a @ x @ b)"
proof (induction a)
  case Nil
  show ?case
  proof (cases "x @ b")
    case Nil
    then show ?thesis by simp
  next
    case (Cons c cs)
    have "starts_with x (x @ b)" by (rule starts_with_append)
    then have "starts_with x (c # cs)" by (simp only: Cons)
    then show ?thesis using Cons by simp
  qed
next
  case (Cons c a)
  then show ?case by simp
qed

text \<open>
  Claim C5, as the program has it. For a legal language tag and two corpora that are not
  empty, the Case Analysis sends one prompt; the prompt contains the disclaimer sentence
  of line 188, and the operation returns the reply of the model as it is. The sentence is
  at the start of the result only if the model puts it there.
\<close>

theorem case_prompt_carries_disclaimer:
  assumes "lang_map_full lang = Some full" and "ppc \<noteq> []" and "crpc \<noteq> []"
  shows "snd (analyze_case generate_content d (Some ppc) (Some crpc) lang)
           = [case_prompt d ppc crpc full]
       \<and> py_in disclaimer (case_prompt d ppc crpc full)
       \<and> (\<forall>reply. generate_content (case_prompt d ppc crpc full) = Inr reply
            \<longrightarrow> fst (analyze_case generate_content d (Some ppc) (Some crpc) lang) = Inr reply)"
proof -
  have "case_prompt d ppc crpc full =
          (case_prompt_0 @ d @ case_prompt_2 @ take 7000 ppc @ case_prompt_4
             @ take 7000 crpc @ case_prompt_6 @ full @ case_prompt_8)
          @ disclaimer @ case_prompt_9"
    by (simp add: case_prompt_def)
  then have "py_in disclaimer (case_prompt d ppc crpc full)"
    by (simp only: py_in_append)
  then show ?thesis using assms
    by (auto simp: analyze_case_def not_text_def Let_def split: sum.splits)
qed

theorem case_prompt_carries_disclaimer_witness:
  "snd (analyze_case (replying (asc ''ok'')) (asc ''theft'') (Some (asc ''a'')) (Some (asc ''b''))
          (asc ''ur''))
     = [case_prompt (asc ''theft'') (asc ''a'') (asc ''b'') (asc ''Urdu'')]
   \<and> py_in disclaimer (case_prompt (asc ''theft'') (asc ''a'') (asc ''b'') (asc ''Urdu''))
   \<and> fst (analyze_case (replying (asc ''ok'')) (asc ''theft'') (Some (asc ''a'')) (Some (asc ''b''))
          (asc ''ur'')) = Inr (asc ''ok'')"
proof -
  have ur: "lang_map_full (asc ''ur'') = Some (asc ''Urdu'')"
    by (simp add: lang_map_full_def asc_def)
  have ne: "asc ''a'' \<noteq> []" "asc ''b'' \<noteq> []" by (simp_all add: asc_def)
  from case_prompt_carries_disclaimer [OF ur ne, of "replying (asc ''ok'')" "asc ''theft''"]
  show ?thesis by (simp add: replying_def)
qed

text \<open>A reply without the disclaimer is returned without it.\<close>

theorem reply_without_disclaimer:
  "fst (analyze_case (replying (asc ''Section 379 applies.'')) (asc ''theft'')
         (Some (asc ''a'')) (Some (asc ''b'')) (asc ''ur'')) = Inr (asc ''Section 379 applies.'')
   \<and> \<not> starts_with disclaimer (asc ''Section 379 applies.'')"
  by (simp add: analyze_case_def not_text_def lang_map_full_def replying_def Let_def
        asc_def disclaimer_def)

text \<open>
  Claim C6, as the program has it. Without a corpus (\<open>None\<close> or the empty string) the
  Section Detail returns its fixed string, the Urdu one for the tag \<open>ur\<close> and the English
  one for every other tag, and sends nothing to the model.
\<close>

theorem empty_corpus_short_circuits:
  "not_text law_text \<Longrightarrow>
     get_law_details U generate_content n law_text lang
       = (Inr (if lang = asc ''ur'' then text_unavailable_ur else text_unavailable_en), [])"
  by (auto simp: get_law_details_def not_text_def text_unavailable_def split: option.splits)

theorem empty_corpus_short_circuits_witness:
  "not_text None \<and> not_text (Some [])
   \<and> get_law_details arabic_tables (replying (asc ''x'')) (asc ''302'') None (asc ''ur'')
       = (Inr text_unavailable_ur, [])
   \<and> get_law_details arabic_tables (replying (asc ''x'')) (asc ''302'') (Some []) (asc ''en'')
       = (Inr text_unavailable_en, [])"
proof -
  have h: "not_text None" "not_text (Some [])" by (simp_all add: not_text_def)
  have ne: "asc ''en'' \<noteq> asc ''ur''" by (simp add: asc_def)
  from empty_corpus_short_circuits [OF h(1), of arabic_tables "replying (asc ''x'')" "asc ''302''" "asc ''ur''"]
       empty_corpus_short_circuits [OF h(2), of arabic_tables "replying (asc ''x'')" "asc ''302''" "asc ''en''"]
       h ne
  show ?thesis by simp
qed

text \<open>For the tag \<open>ro\<close> of Roman Urdu the string returned is the English one.\<close>

theorem roman_urdu_gets_english_fallback:
  "get_law_details arabic_tables (replying []) (asc ''302'') (Some []) (asc ''ro'')
     = (Inr (asc ''Sorry, relevant legal text is not available.''), [])"
  by (simp add: get_law_details_def text_unavailable_def text_unavailable_en_def asc_def)

text \<open>
  Claim C7, as the program has it. When the model replies, the Section Detail returns the
  reply without the white space at its ends; if nothing is left, or if what is left
  contains the marker word while the excerpt is empty, it returns the fixed string
  instead, the Urdu one for the tag \<open>ur\<close> and the English one for every other tag.
\<close>

theorem reply_is_stripped_or_replaced:
  assumes "lang_map_full lang = Some full" and "text \<noteq> []"
    and "generate_content (law_prompt n lang full (section_content U n text)) = Inr reply"
  shows "fst (get_law_details U generate_content n (Some text) lang)
         = Inr (if strip reply = [] \<or>
                   (py_in unknown_marker (strip reply) \<and> section_content U n text = [])
                then (if lang = asc ''ur'' then no_details_ur else no_details_en)
                else strip reply)"
  using assms by (simp add: get_law_details_def no_details_def Let_def)

theorem reply_is_stripped_or_replaced_witness:
  "fst (get_law_details arabic_tables (replying ([32] @ unknown_marker @ [10])) (asc ''302'')
          (Some (asc ''Section 302'')) (asc ''ro'')) = Inr no_details_en
   \<and> fst (get_law_details arabic_tables (replying (asc '' Qatl-i-amd. '')) (asc ''302'')
          (Some (asc ''Section 302'')) (asc ''ur'')) = Inr (asc ''Qatl-i-amd.'')"
proof -
  have ro: "lang_map_full (asc ''ro'') = Some (asc ''Roman Urdu'')"
    by (simp add: lang_map_full_def asc_def)
  have ur: "lang_map_full (asc ''ur'') = Some (asc ''Urdu'')"
    by (simp add: lang_map_full_def asc_def)
  have ne: "asc ''Section 302'' \<noteq> []" "asc ''ro'' \<noteq> asc ''ur''" by (simp_all add: asc_def)
  have ex: "section_content arabic_tables (asc ''302'') (asc ''Section 302'') = []"
    by (rule locator_needs_qmark) (simp add: asc_def qmark_def)
  have s1: "strip ([32] @ unknown_marker @ [10]) = unknown_marker"
    by (simp add: regex_defs unknown_marker_def isspace_def)
  have s2: "strip (asc '' Qatl-i-amd. '') = asc ''Qatl-i-amd.''"
    by (simp add: regex_defs char_defs)
  have m1: "py_in unknown_marker unknown_marker" by (simp add: unknown_marker_def)
  have m2: "\<not> py_in unknown_marker (asc ''Qatl-i-amd.'')"
    by (simp add: unknown_marker_def asc_def)
  have n1: "unknown_marker \<noteq> []" "asc ''Qatl-i-amd.'' \<noteq> []"
    by (simp_all add: unknown_marker_def asc_def)
  from reply_is_stripped_or_replaced [OF ro ne(1), of "replying ([32] @ unknown_marker @ [10])"
         "asc ''302''" arabic_tables "[32] @ unknown_marker @ [10]"]
       reply_is_stripped_or_replaced [OF ur ne(1), of "replying (asc '' Qatl-i-amd. '')"
         "asc ''302''" arabic_tables "asc '' Qatl-i-amd. ''"]
       ne ex s1 s2 m1 m2 n1
  show ?thesis by (simp add: replying_def)
qed

text \<open>A reply with white space at its ends is not returned unchanged.\<close>

theorem reply_not_returned_unchanged:
  "strip (asc '' ok '') \<noteq> [] \<and> \<not> py_in unknown_marker (strip (asc '' ok ''))
   \<and> fst (get_law_details arabic_tables (replying (asc '' ok '')) (asc ''302'')
            (Some (asc ''Section 302'')) (asc ''en'')) = Inr (asc ''ok'')
   \<and> asc ''ok'' \<noteq> asc '' ok ''"
  by (simp add: get_law_details_def lang_map_full_def replying_def unknown_marker_def Let_def
        asc_def strip_def lstrip_def rstrip_def isspace_def)

text \<open>
  Claim C8. When the call of the model fails, each operation returns the error prefix of
  the language (the Urdu one for \<open>ur\<close>, the English one otherwise) followed by the
  description of the failure, after the one prompt it has sent; and with a legal language
  tag neither operation ends in an exception, whatever the model does.
\<close>

theorem backend_failure_is_returned:
  assumes "lang_map_full lang = Some full"
  shows "(text \<noteq> [] \<and>
            generate_content (law_prompt n lang full (section_content U n text)) = Inl e
          \<longrightarrow> get_law_details U generate_content n (Some text) lang
                = (Inr ((if lang = asc ''ur'' then api_error_ur else api_error_en) @ e),
                   [law_prompt n lang full (section_content U n text)]))
       \<and> (ppc \<noteq> [] \<and> crpc \<noteq> [] \<and> generate_content (case_prompt d ppc crpc full) = Inl e
          \<longrightarrow> analyze_case generate_content d (Some ppc) (Some crpc) lang
                = (Inr ((if lang = asc ''ur'' then api_error_ur else api_error_en) @ e),
                   [case_prompt d ppc crpc full]))
       \<and> (\<exists>s. fst (get_law_details U generate_content n law_text lang) = Inr s)
       \<and> (\<exists>s. fst (analyze_case generate_content d ppc_text crpc_text lang) = Inr s)"
  using assms
  by (auto simp: get_law_details_def analyze_case_def not_text_def api_error_def Let_def
           split: option.splits sum.splits)

theorem backend_failure_is_returned_witness:
  "get_law_details arabic_tables (failing (asc ''503 unavailable'')) (asc ''302'')
       (Some (asc ''Section 302'')) (asc ''ro'')
     = (Inr (api_error_en @ asc ''503 unavailable''),
        [law_prompt (asc ''302'') (asc ''ro'') (asc ''Roman Urdu'')
           (section_content arabic_tables (asc ''302'') (asc ''Section 302''))])
   \<and> analyze_case (failing (asc ''503 unavailable'')) (asc ''theft'') (Some (asc ''a''))
       (Some (asc ''b'')) (asc ''ur'')
     = (Inr (api_error_ur @ asc ''503 unavailable''),
        [case_prompt (asc ''theft'') (asc ''a'') (asc ''b'') (asc ''Urdu'')])"
proof -
  have ro: "lang_map_full (asc ''ro'') = Some (asc ''Roman Urdu'')"
    by (simp add: lang_map_full_def asc_def)
  have ur: "lang_map_full (asc ''ur'') = Some (asc ''Urdu'')"
    by (simp add: lang_map_full_def asc_def)
  have ne: "asc ''ro'' \<noteq> asc ''ur''" "asc ''Section 302'' \<noteq> []" "asc ''a'' \<noteq> []" "asc ''b'' \<noteq> []"
    by (simp_all add: asc_def)
  from backend_failure_is_returned [OF ro, of "asc ''Section 302''"
      "failing (asc ''503 unavailable'')" "asc ''302''" arabic_tables "asc ''503 unavailable''"]
    backend_failure_is_returned [OF ur, of _ "failing (asc ''503 unavailable'')" _ _
      "asc ''503 unavailable''" "asc ''a''" "asc ''b''" "asc ''theft''"]
    ne
  show ?thesis by (simp add: failing_def)
qed

section \<open>Properties of the Language Classifier\<close>

text \<open>
  Claim C10. A query whose lower-cased form contains \<open>section\<close> is answered in English,
  whatever else it contains: the first two tests of line 252 stand alone, and the negations
  about \<open>urdu\<close> and \<open>roman\<close> belong to the test for \<open>law\<close> only. The witness is a query
  that also contains \<open>urdu\<close>, \<open>roman\<close>, \<open>law\<close> and the Roman Urdu keyword \<open>kya\<close>.
\<close>

theorem section_gives_english:
  "py_in (asc ''section'') (lower U user_input) \<Longrightarrow> language_classifier U user_input = asc ''en''"
  by (simp add: language_classifier_def Let_def)

theorem section_gives_english_witness:
  "py_in (asc ''section'') (lower arabic_tables (asc ''Urdu: SECTION 302 kya hai, roman law''))
   \<and> language_classifier arabic_tables (asc ''Urdu: SECTION 302 kya hai, roman law'') = asc ''en''"
proof -
  have h: "py_in (asc ''section'') (lower arabic_tables (asc ''Urdu: SECTION 302 kya hai, roman law''))"
    by (simp add: char_defs)
  from section_gives_english [OF h] h show ?thesis by simp
qed

text \<open>
  A query written in the Arabic script only is left as it is by \<open>lower\<close> and contains
  none of the keywords, all of which are ASCII.
\<close>

lemma lower_arabic: "\<forall>c\<in>set s. arabic_script c \<Longrightarrow> lower U s = s"
  by (induction s) (auto simp: lower_def lower_cp_def isascii_def arabic_script_def)

lemma starts_with_set: "starts_with kw s \<Longrightarrow> set kw \<subseteq> set s"
  by (induction kw s rule: starts_with.induct) auto

lemma py_in_set: "py_in kw s \<Longrightarrow> set kw \<subseteq> set s"
proof (induction s)
  case Nil
  then show ?case by simp
next
  case (Cons c cs)
  from Cons.prems have "starts_with kw (c # cs) \<or> py_in kw cs" by simp
  then show ?case
  proof
    assume "starts_with kw (c # cs)"
    then show ?thesis by (rule starts_with_set)
  next
    assume "py_in kw cs"
    then have "set kw \<subseteq> set cs" by (rule Cons.IH)
    then show ?thesis by auto
  qed
qed

lemma no_ascii_keyword:
  assumes "\<forall>c\<in>set s. arabic_script c" and "k \<in> set kw" and "k < 128"
  shows "\<not> py_in kw s"
proof
  assume "py_in kw s"
  then have "k \<in> set s" using assms(2) py_in_set by blast
  then have "arabic_script k" using assms(1) by blast
  then show False using assms(3) by (simp add: arabic_script_def)
qed

lemma arabic_script_urdu:
  assumes "\<forall>c\<in>set user_input. arabic_script c"
  shows "language_classifier U user_input = asc ''ur''"
proof -
  have low: "lower U user_input = user_input" using assms by (rule lower_arabic)
  have no: "\<And>kw k. k \<in> set kw \<Longrightarrow> k < 128 \<Longrightarrow> \<not> py_in kw user_input"
    using assms no_ascii_keyword by blast
  have "\<not> py_in (asc ''what is'') user_input" by (rule no [of 119]) (simp_all add: asc_def)
  moreover have "\<not> py_in (asc ''section'') user_input" by (rule no [of 115]) (simp_all add: asc_def)
  moreover have "\<not> py_in (asc ''law'') user_input" by (rule no [of 108]) (simp_all add: asc_def)
  moreover have "\<not> py_in (asc ''kya'') user_input" by (rule no [of 107]) (simp_all add: asc_def)
  moreover have "\<not> py_in (asc ''kiya'') user_input" by (rule no [of 107]) (simp_all add: asc_def)
  moreover have "\<not> py_in (asc ''kaise'') user_input" by (rule no [of 107]) (simp_all add: asc_def)
  moreover have "\<not> py_in (asc ''mein'') user_input" by (rule no [of 109]) (simp_all add: asc_def)
  moreover have "\<not> py_in (asc ''mujhe'') user_input" by (rule no [of 109]) (simp_all add: asc_def)
  moreover have "\<not> py_in (asc ''batao'') user_input" by (rule no [of 98]) (simp_all add: asc_def)
  moreover have "\<not> py_in (asc ''lagte'') user_input" by (rule no [of 108]) (simp_all add: asc_def)
  moreover have "\<not> py_in (asc ''hogaya'') user_input" by (rule no [of 104]) (simp_all add: asc_def)
  ultimately show ?thesis
    by (simp add: language_classifier_def Let_def low)
qed

text \<open>
  Claim C9. A query that consists of alphabetic characters of the Arabic script only, and so
  of no ASCII character, is answered in Urdu.
\<close>

theorem arabic_query_is_urdu:
  "\<forall>c\<in>set user_input. arabic_script c \<and> isalpha U c \<and> \<not> isascii c
   \<Longrightarrow> language_classifier U user_input = asc ''ur''"
  by (rule arabic_script_urdu) blast

theorem arabic_query_is_urdu_witness:
  "list_all (\<lambda>c. arabic_script c \<and> isalpha arabic_tables c \<and> \<not> isascii c) [1602, 1578, 1604]
   \<and> language_classifier arabic_tables [1602, 1578, 1604] = asc ''ur''"
proof -
  have h: "\<forall>c\<in>set [1602, 1578, 1604]. arabic_script c \<and> isalpha arabic_tables c \<and> \<not> isascii c"
    by (simp add: char_defs)
  from arabic_query_is_urdu [OF h] h show ?thesis by (simp add: list_all_iff)
qed

end
